theory Spec2Isabelle
  imports Main "HOL-Library.Word"
begin

section \<open>JavaScript values and the operators the hooks apply to them\<close>

text \<open>
  The hooks are untyped JavaScript: results, thrown values, initial values and stored
  errors are arbitrary values. The values covered here:
  \<^item> \<open>JNum n\<close> is the number whose value is the signed 32-bit integer \<open>n\<close>; every such
    integer is a number of JavaScript and prints in plain decimal.
  \<^item> \<open>JError name message\<close> is an instance of \<^verbatim>\<open>Error\<close> (or of a subclass, which \<open>name\<close>
    tells apart) with these two properties and nothing else of its own.
  \<^item> \<open>JObject fields\<close> is a plain object as \<^verbatim>\<open>JSON.parse\<close> builds one: its prototype is
    \<^verbatim>\<open>Object.prototype\<close> and its own properties are the listed ones, a later entry
    for a key replacing an earlier one.
  Functions, symbols, fractions and objects with accessors are not covered.
\<close>

datatype jsval =
    JUndefined
  | JNull
  | JBool bool
  | JNum "32 word"
  | JStr string
  | JError string string
  | JObject "(string \<times> jsval) list"

text \<open>\<^verbatim>\<open>err instanceof Error\<close>\<close>

fun instanceof_Error :: "jsval \<Rightarrow> bool" where
  "instanceof_Error (JError name msg) = True"
| "instanceof_Error v = False"

text \<open>\<^verbatim>\<open>new Error(message)\<close>\<close>

definition new_Error :: "string \<Rightarrow> jsval" where
  "new_Error msg = JError ''Error'' msg"

text \<open>
  \<^verbatim>\<open>v.message\<close>: \<open>None\<close> where the read throws (on \<^verbatim>\<open>null\<close> and \<^verbatim>\<open>undefined\<close>); a value
  without the property gives \<^verbatim>\<open>undefined\<close>.
\<close>

fun message :: "jsval \<Rightarrow> jsval option" where
  "message JUndefined = None"
| "message JNull = None"
| "message (JError name msg) = Some (JStr msg)"
| "message (JObject fields) =
     Some (case map_of (rev fields) ''message'' of Some v \<Rightarrow> v | None \<Rightarrow> JUndefined)"
| "message v = Some JUndefined"

text \<open>\<^verbatim>\<open>a ?? b\<close>: the right operand replaces a null-like left operand only.\<close>

fun nullish :: "jsval \<Rightarrow> bool" where
  "nullish JUndefined = True"
| "nullish JNull = True"
| "nullish v = False"

definition coalesce :: "jsval \<Rightarrow> jsval \<Rightarrow> jsval" where
  "coalesce a b = (if nullish a then b else a)"

text \<open>\<^verbatim>\<open>!!v\<close>\<close>

fun truthy :: "jsval \<Rightarrow> bool" where
  "truthy JUndefined = False"
| "truthy JNull = False"
| "truthy (JBool b) = b"
| "truthy (JNum n) = (n \<noteq> 0)"
| "truthy (JStr s) = (s \<noteq> [])"
| "truthy (JError name msg) = True"
| "truthy (JObject fields) = True"

text \<open>
  \<^verbatim>\<open>String(v)\<close>, which returns a string (\<open>Inr\<close>) or throws (\<open>Inl\<close>). A plain object is
  converted by its \<^verbatim>\<open>toString\<close> method. The inherited one returns
  \<^verbatim>\<open>"[object Object]"\<close>. An own property of that name hides it; its value is no function
  here, so it is skipped, \<^verbatim>\<open>valueOf\<close> (own and no function, or inherited and returning
  the object) gives no primitive either, and the conversion throws a \<^verbatim>\<open>TypeError\<close>. The
  message of that error is the engine's; the one of V8 is taken.
\<close>

definition cannot_convert :: jsval where
  "cannot_convert = JError ''TypeError'' ''Cannot convert object to primitive value''"

function digits :: "int \<Rightarrow> string" where
  "digits n =
     (if n < 10 then [''0123456789'' ! nat n]
      else digits (n div 10) @ [''0123456789'' ! nat (n mod 10)])"
  by pat_completeness auto
termination
  by (relation "measure nat") auto

fun String_js :: "jsval \<Rightarrow> jsval + string" where
  "String_js JUndefined = Inr ''undefined''"
| "String_js JNull = Inr ''null''"
| "String_js (JBool b) = Inr (if b then ''true'' else ''false'')"
| "String_js (JNum n) =
     Inr (if sint n < 0 then ''-'' @ digits (- sint n) else digits (sint n))"
| "String_js (JStr s) = Inr s"
| "String_js (JError name msg) =
     Inr (if name = [] then msg else if msg = [] then name else name @ '': '' @ msg)"
| "String_js (JObject fields) =
     (if ''toString'' \<in> set (map fst fields) then Inl cannot_convert
      else Inr ''[object Object]'')"

text \<open>How a promise settles, and how a synchronous call completes.\<close>

datatype settlement = Fulfilled jsval | Rejected jsval

datatype completion = Normal jsval | Throw jsval


section \<open>Promise chaining\<close>

text \<open>
  \<^verbatim>\<open>p.then(f)\<close>, \<^verbatim>\<open>p.catch(f)\<close> and \<^verbatim>\<open>p.finally(f)\<close> at the moment \<open>p\<close> settles. A handler
  runs against the state \<open>'s\<close> it writes to and completes normally or throws; the chained
  promise settles accordingly. A handler that is skipped passes the settlement through.
\<close>

type_synonym 's handler = "jsval \<Rightarrow> 's \<Rightarrow> completion \<times> 's"

fun settle_of :: "completion \<Rightarrow> settlement" where
  "settle_of (Normal v) = Fulfilled v"
| "settle_of (Throw e) = Rejected e"

fun then_p :: "'s handler \<Rightarrow> settlement \<times> 's \<Rightarrow> settlement \<times> 's" where
  "then_p f (Fulfilled v, s) = (case f v s of (c, s') \<Rightarrow> (settle_of c, s'))"
| "then_p f (Rejected e, s) = (Rejected e, s)"

fun catch_p :: "'s handler \<Rightarrow> settlement \<times> 's \<Rightarrow> settlement \<times> 's" where
  "catch_p f (Fulfilled v, s) = (Fulfilled v, s)"
| "catch_p f (Rejected e, s) = (case f e s of (c, s') \<Rightarrow> (settle_of c, s'))"

fun finally_p :: "('s \<Rightarrow> completion \<times> 's) \<Rightarrow> settlement \<times> 's \<Rightarrow> settlement \<times> 's" where
  "finally_p f (p, s) =
     (case f s of (Normal v, s') \<Rightarrow> (p, s') | (Throw e, s') \<Rightarrow> (Rejected e, s'))"

text \<open>
  \<^verbatim>\<open>await p\<close> as the last statement of an \<^verbatim>\<open>async\<close> function without a \<^verbatim>\<open>return\<close>: the
  function's own promise fulfils with \<^verbatim>\<open>undefined\<close> when \<open>p\<close> fulfils and rejects with
  \<open>p\<close>'s reason when \<open>p\<close> rejects.
\<close>

fun await_last :: "settlement \<Rightarrow> settlement" where
  "await_last (Fulfilled v) = Fulfilled JUndefined"
| "await_last (Rejected e) = Rejected e"

datatype promise_state = Pending | Settled settlement

section \<open>useAsyncStateEffect\<close>

text \<open>
  The five state cells of \<^verbatim>\<open>useAsyncStateEffect\<close> (the cell \<^verbatim>\<open>value\<close> is \<open>val\<close> here). A
  setter call is a write to its cell: the hook only ever passes plain values to its
  setters, so the state a render sees is the result of the writes in the order they
  were made. The calls of \<^verbatim>\<open>console.log\<close> and \<^verbatim>\<open>console.error\<close> are left out: they write
  no cell and nothing reads what they print.
\<close>

record effect_state =
  val :: jsval
  isLoading :: bool
  isError :: bool
  error :: jsval
  isRefreshing :: bool

definition setValue :: "jsval \<Rightarrow> effect_state \<Rightarrow> effect_state" where
  "setValue v s = s\<lparr>val := v\<rparr>"

definition setIsLoading :: "bool \<Rightarrow> effect_state \<Rightarrow> effect_state" where
  "setIsLoading b s = s\<lparr>isLoading := b\<rparr>"

definition setIsError :: "bool \<Rightarrow> effect_state \<Rightarrow> effect_state" where
  "setIsError b s = s\<lparr>isError := b\<rparr>"

definition setError :: "jsval \<Rightarrow> effect_state \<Rightarrow> effect_state" where
  "setError e s = s\<lparr>error := e\<rparr>"

definition setIsRefreshing :: "bool \<Rightarrow> effect_state \<Rightarrow> effect_state" where
  "setIsRefreshing b s = s\<lparr>isRefreshing := b\<rparr>"

text \<open>
  The third argument. The caller may omit it (the default parameter applies), pass
  \<^verbatim>\<open>null\<close>, or pass an object; in an object \<^verbatim>\<open>loadingTrueAtStart\<close> may be missing
  (\<open>None\<close>) and a missing \<^verbatim>\<open>initialValue\<close> reads as \<^verbatim>\<open>undefined\<close>.
\<close>

record options_obj =
  initialValue :: jsval
  loadingTrueAtStart :: "bool option"

datatype options_arg = Options_omitted | Options_null | Options options_obj

text \<open>
  \<^verbatim>\<open>options = { initialValue: undefined, loadingTrueAtStart: true }\<close> in the parameter
  list; the result \<open>None\<close> is \<^verbatim>\<open>null\<close>.
\<close>

fun options_param :: "options_arg \<Rightarrow> options_obj option" where
  "options_param Options_omitted =
     Some \<lparr>initialValue = JUndefined, loadingTrueAtStart = Some True\<rparr>"
| "options_param Options_null = None"
| "options_param (Options obj) = Some obj"

text \<open>\<^verbatim>\<open>useMemo(() => { if (!options) return {}; return options; }, [options])\<close>\<close>

fun memo_options :: "options_obj option \<Rightarrow> options_obj" where
  "memo_options None = \<lparr>initialValue = JUndefined, loadingTrueAtStart = None\<rparr>"
| "memo_options (Some obj) = obj"

text \<open>\<^verbatim>\<open>const { initialValue, loadingTrueAtStart = true } = ...\<close>\<close>

definition initialValue_of :: "options_arg \<Rightarrow> jsval" where
  "initialValue_of arg = initialValue (memo_options (options_param arg))"

definition loadingTrueAtStart_of :: "options_arg \<Rightarrow> bool" where
  "loadingTrueAtStart_of arg =
     (case loadingTrueAtStart (memo_options (options_param arg)) of
        None \<Rightarrow> True | Some b \<Rightarrow> b)"

text \<open>
  The handlers of the two promise chains. \<open>init\<close> is the variable \<^verbatim>\<open>initialValue\<close> of
  the render whose closure started the fetch.
\<close>

definition onFulfilled :: "jsval \<Rightarrow> effect_state handler" where
  "onFulfilled init result s =
     (Normal JUndefined,
      setError JNull (setIsError False (setValue (coalesce result init) s)))"

text \<open>
  The rejection handler calls \<^verbatim>\<open>setIsError(true)\<close> first. When \<^verbatim>\<open>String(err)\<close> throws,
  \<^verbatim>\<open>new Error(...)\<close> is not reached and neither is \<^verbatim>\<open>setError\<close>: the handler throws.
\<close>

definition onRejected :: "effect_state handler" where
  "onRejected err s =
     (if instanceof_Error err then (Normal JUndefined, setError err (setIsError True s))
      else
        (case String_js err of
           Inr str \<Rightarrow> (Normal JUndefined, setError (new_Error str) (setIsError True s))
         | Inl x \<Rightarrow> (Throw x, setIsError True s)))"

definition onFinally_refresh :: "effect_state \<Rightarrow> completion \<times> effect_state" where
  "onFinally_refresh s = (Normal JUndefined, setIsRefreshing False (setIsLoading False s))"

definition onFinally_effect :: "effect_state \<Rightarrow> completion \<times> effect_state" where
  "onFinally_effect s = (Normal JUndefined, setIsLoading False s)"

text \<open>
  The chain \<^verbatim>\<open>.then(...).catch(...).finally(...)\<close> that \<^verbatim>\<open>refresh\<close> attaches to the
  promise of \<open>func\<close>, and the one the effect attaches.
\<close>

definition refresh_chain :: "jsval \<Rightarrow> settlement \<times> effect_state \<Rightarrow> settlement \<times> effect_state" where
  "refresh_chain init p =
     finally_p onFinally_refresh (catch_p onRejected (then_p (onFulfilled init) p))"

definition effect_chain :: "jsval \<Rightarrow> settlement \<times> effect_state \<Rightarrow> settlement \<times> effect_state" where
  "effect_chain init p =
     finally_p onFinally_effect (catch_p onRejected (then_p (onFulfilled init) p))"

text \<open>
  One instance of the hook. \<open>func\<close> is an asynchronous function: calling it returns a
  promise at once, and the promise settles later, or never. Each call of \<open>func\<close> is a
  fetch; it is numbered by \<open>func_calls\<close> and stays in \<open>inflight\<close>, with the kind of chain
  attached to it and the \<open>initialValue\<close> its closure holds, until its promise settles.
  \<open>promises\<close> records the promise each call of \<^verbatim>\<open>refresh()\<close> returned, latest entry
  first. \<open>options\<close> and \<open>deps\<close> are the arguments of the latest render. A dependency is
  a token of identity: equal tokens are values that \<^verbatim>\<open>Object.is\<close> identifies.
\<close>

datatype fetch_kind = Auto | Manual

record fetch =
  kind :: fetch_kind
  captured_initialValue :: jsval

type_synonym dep = nat

record hook =
  cells :: effect_state
  options :: options_arg
  deps :: "dep list"
  inflight :: "(nat \<times> fetch) list"
  func_calls :: nat
  promises :: "(nat \<times> promise_state) list"

text \<open>\<^verbatim>\<open>func()\<close> followed by the registration of a chain of the given kind.\<close>

definition call_func :: "fetch_kind \<Rightarrow> hook \<Rightarrow> hook" where
  "call_func k h =
     h\<lparr>inflight :=
          (func_calls h, \<lparr>kind = k, captured_initialValue = initialValue_of (options h)\<rparr>)
            # inflight h,
       func_calls := Suc (func_calls h)\<rparr>"

text \<open>
  \<^verbatim>\<open>refresh()\<close> up to its \<^verbatim>\<open>await\<close>: the two setters, the call of \<open>func\<close>, and the pending
  promise handed to the caller. \<^verbatim>\<open>useCallback\<close> renews \<open>refresh\<close> whenever \<open>options\<close>
  changes, so the closure is the latest render's.
\<close>

definition refresh :: "hook \<Rightarrow> hook" where
  "refresh h =
     (call_func Manual (h\<lparr>cells := setIsLoading True (setIsRefreshing True (cells h))\<rparr>))
       \<lparr>promises := (func_calls h, Pending) # promises h\<rparr>"

text \<open>The body of the \<^verbatim>\<open>useEffect\<close> callback up to the call of \<open>func\<close>.\<close>

definition effect :: "hook \<Rightarrow> hook" where
  "effect h = call_func Auto (h\<lparr>cells := setIsLoading True (cells h)\<rparr>)"

text \<open>The first render: every \<^verbatim>\<open>useState\<close> takes its initial argument.\<close>

definition first_render :: "dep list \<Rightarrow> options_arg \<Rightarrow> hook" where
  "first_render ds arg =
     \<lparr>cells = \<lparr>val = initialValue_of arg, isLoading = loadingTrueAtStart_of arg,
               isError = False, error = JNull, isRefreshing = False\<rparr>,
      options = arg, deps = ds, inflight = [], func_calls = 0, promises = []\<rparr>"

text \<open>
  Modelled from the spec: the host framework's \<^verbatim>\<open>useEffect\<close>, which is not part of this
  repository. It runs the effect once after the first render, and after a later render
  when some dependency differs from the one recorded at the same position.
\<close>

definition deps_equal :: "dep list \<Rightarrow> dep list \<Rightarrow> bool" where
  "deps_equal next prev = list_all (\<lambda>(a, b). a = b) (zip next prev)"

text \<open>
  Mounting is the first render followed by the effect. A later render takes the new
  arguments, records its triggers, and runs the effect, with the closure of that
  render, if the triggers differ from the recorded ones.
\<close>

definition mount :: "dep list \<Rightarrow> options_arg \<Rightarrow> hook" where
  "mount ds arg = effect (first_render ds arg)"

definition rerender :: "dep list \<Rightarrow> options_arg \<Rightarrow> hook \<Rightarrow> hook" where
  "rerender ds arg h =
     (if deps_equal ds (deps h) then h\<lparr>options := arg, deps := ds\<rparr>
      else effect (h\<lparr>options := arg, deps := ds\<rparr>))"

text \<open>
  The promise of fetch \<open>i\<close> settles with \<open>out\<close> and the three reactions of its chain run
  against the cells before anything else happens to the instance, as they do when no
  other promise of the instance settles in the same turn of the event loop (the general
  case is \<open>run_job\<close> below). For a manual fetch the chain is awaited by \<^verbatim>\<open>refresh\<close>, whose
  promise then settles. A promise settles once: a fetch that is not in flight has no
  chain left to run.
\<close>

definition settle :: "nat \<Rightarrow> settlement \<Rightarrow> hook \<Rightarrow> hook" where
  "settle i out h =
     (case map_of (inflight h) i of
        None \<Rightarrow> h
      | Some f \<Rightarrow>
          (case kind f of
             Auto \<Rightarrow>
               (case effect_chain (captured_initialValue f) (out, cells h) of
                  (p, s) \<Rightarrow> h\<lparr>cells := s, inflight := filter (\<lambda>(j, g). j \<noteq> i) (inflight h)\<rparr>)
           | Manual \<Rightarrow>
               (case refresh_chain (captured_initialValue f) (out, cells h) of
                  (p, s) \<Rightarrow> h\<lparr>cells := s, inflight := filter (\<lambda>(j, g). j \<noteq> i) (inflight h),
                              promises := (i, Settled (await_last p)) # promises h\<rparr>)))"

text \<open>What can happen to a mounted instance, and a run of such events.\<close>

datatype event = Rerender "dep list" options_arg | Refresh | Settle nat settlement

fun step :: "hook \<Rightarrow> event \<Rightarrow> hook" where
  "step h (Rerender ds arg) = rerender ds arg h"
| "step h Refresh = refresh h"
| "step h (Settle i out) = settle i out h"

definition run_events :: "hook \<Rightarrow> event list \<Rightarrow> hook" where
  "run_events h es = foldl step h es"

definition refresh_promise :: "hook \<Rightarrow> nat \<Rightarrow> promise_state option" where
  "refresh_promise h i = map_of (promises h) i"

fun settles :: "nat \<Rightarrow> event \<Rightarrow> bool" where
  "settles i (Settle j out) = (j = i)"
| "settles i e = False"

text \<open>
  The reactions one by one. A settled promise queues its reaction as a job; jobs run
  first in, first out, and a job that settles the next promise of a chain queues that
  promise's reaction at the back. So the handler of \<^verbatim>\<open>.then\<close> runs in the first job
  after the promise of \<open>func\<close> settles, the handler of \<^verbatim>\<open>.catch\<close> in the second and the
  handler of \<^verbatim>\<open>.finally\<close> in the third, and the jobs of two chains whose promises settled
  in the same turn alternate. A reaction carries the settlement of the promise it
  reacts to. The promise of \<^verbatim>\<open>refresh()\<close> settles a few jobs after the third reaction
  of its chain; no handler of the hook runs in those jobs, and the settlement is
  recorded with the third reaction.
\<close>

datatype stage = Then_stage | Catch_stage | Finally_stage

record reaction =
  r_fetch :: nat
  r_kind :: fetch_kind
  r_init :: jsval
  r_stage :: stage
  r_settled :: settlement

record jobs_state =
  inst :: hook
  queue :: "reaction list"

definition promise_settles :: "nat \<Rightarrow> settlement \<Rightarrow> jobs_state \<Rightarrow> jobs_state" where
  "promise_settles i out q =
     (case map_of (inflight (inst q)) i of
        None \<Rightarrow> q
      | Some f \<Rightarrow>
          q\<lparr>inst := (inst q)\<lparr>inflight := filter (\<lambda>(j, g). j \<noteq> i) (inflight (inst q))\<rparr>,
            queue := queue q @
              [\<lparr>r_fetch = i, r_kind = kind f, r_init = captured_initialValue f,
                r_stage = Then_stage, r_settled = out\<rparr>]\<rparr>)"

definition run_job :: "jobs_state \<Rightarrow> jobs_state" where
  "run_job q =
     (case queue q of
        [] \<Rightarrow> q
      | r # rest \<Rightarrow>
          (case r_stage r of
             Then_stage \<Rightarrow>
               (case then_p (onFulfilled (r_init r)) (r_settled r, cells (inst q)) of
                  (p, s) \<Rightarrow>
                    q\<lparr>inst := (inst q)\<lparr>cells := s\<rparr>,
                      queue := rest @ [r\<lparr>r_stage := Catch_stage, r_settled := p\<rparr>]\<rparr>)
           | Catch_stage \<Rightarrow>
               (case catch_p onRejected (r_settled r, cells (inst q)) of
                  (p, s) \<Rightarrow>
                    q\<lparr>inst := (inst q)\<lparr>cells := s\<rparr>,
                      queue := rest @ [r\<lparr>r_stage := Finally_stage, r_settled := p\<rparr>]\<rparr>)
           | Finally_stage \<Rightarrow>
               (case r_kind r of
                  Auto \<Rightarrow>
                    (case finally_p onFinally_effect (r_settled r, cells (inst q)) of
                       (p, s) \<Rightarrow> q\<lparr>inst := (inst q)\<lparr>cells := s\<rparr>, queue := rest\<rparr>)
                | Manual \<Rightarrow>
                    (case finally_p onFinally_refresh (r_settled r, cells (inst q)) of
                       (p, s) \<Rightarrow>
                         q\<lparr>inst := (inst q)
                               \<lparr>cells := s,
                                promises :=
                                  (r_fetch r, Settled (await_last p)) # promises (inst q)\<rparr>,
                           queue := rest\<rparr>))))"

fun run_jobs :: "nat \<Rightarrow> jobs_state \<Rightarrow> jobs_state" where
  "run_jobs 0 q = q"
| "run_jobs (Suc n) q = run_jobs n (run_job q)"

fun is_rejected :: "settlement \<Rightarrow> bool" where
  "is_rejected (Rejected e) = True"
| "is_rejected (Fulfilled v) = False"

section \<open>useAsyncAction\<close>

text \<open>
  The three state cells of \<^verbatim>\<open>useAsyncAction\<close>: \<^verbatim>\<open>data\<close>, \<^verbatim>\<open>error\<close> and \<^verbatim>\<open>isLoading\<close>
  (prefixed here, the other hook has cells of the same names). \<^verbatim>\<open>isError\<close> is not a
  cell: each render computes it as \<^verbatim>\<open>!!error\<close>.
\<close>

record action_state =
  data :: jsval
  act_error :: jsval
  act_isLoading :: bool

definition setData :: "jsval \<Rightarrow> action_state \<Rightarrow> action_state" where
  "setData v s = s\<lparr>data := v\<rparr>"

definition act_setError :: "jsval \<Rightarrow> action_state \<Rightarrow> action_state" where
  "act_setError e s = s\<lparr>act_error := e\<rparr>"

definition act_setIsLoading :: "bool \<Rightarrow> action_state \<Rightarrow> action_state" where
  "act_setIsLoading b s = s\<lparr>act_isLoading := b\<rparr>"

definition act_isError :: "action_state \<Rightarrow> bool" where
  "act_isError s = truthy (act_error s)"

definition useAsyncAction_init :: action_state where
  "useAsyncAction_init = \<lparr>data = JNull, act_error = JNull, act_isLoading = False\<rparr>"

text \<open>
  The caller's callbacks. A callback that is given is a function of the caller's: it
  returns or throws. \<open>onComplete\<close> takes no argument, \<open>onError\<close> takes one.
\<close>

record action_options =
  onComplete :: "completion option"
  onError :: "(jsval \<Rightarrow> completion) option"

datatype callback_call = Called_onComplete | Called_onError jsval

text \<open>The cells together with the record of the callback calls made so far.\<close>

record action =
  act_cells :: action_state
  calls :: "callback_call list"

text \<open>\<^verbatim>\<open>options?.onComplete?.()\<close> and \<^verbatim>\<open>options?.onError?.(arg)\<close>\<close>

definition call_onComplete :: "action_options option \<Rightarrow> action \<Rightarrow> completion \<times> action" where
  "call_onComplete opts w =
     (case opts of
        None \<Rightarrow> (Normal JUndefined, w)
      | Some obj \<Rightarrow>
          (case onComplete obj of
             None \<Rightarrow> (Normal JUndefined, w)
           | Some c \<Rightarrow> (c, w\<lparr>calls := calls w @ [Called_onComplete]\<rparr>)))"

definition call_onError :: "action_options option \<Rightarrow> jsval \<Rightarrow> action \<Rightarrow> completion \<times> action" where
  "call_onError opts arg w =
     (case opts of
        None \<Rightarrow> (Normal JUndefined, w)
      | Some obj \<Rightarrow>
          (case onError obj of
             None \<Rightarrow> (Normal JUndefined, w)
           | Some f \<Rightarrow> (f arg, w\<lparr>calls := calls w @ [Called_onError arg]\<rparr>)))"

text \<open>The object \<^verbatim>\<open>{ data: d, error: e }\<close> that \<^verbatim>\<open>run\<close> returns.\<close>

definition result_pair :: "jsval \<Rightarrow> jsval \<Rightarrow> jsval" where
  "result_pair d e = JObject [(''data'', d), (''error'', e)]"

text \<open>
  \<^verbatim>\<open>run\<close> is an \<^verbatim>\<open>async\<close> function made anew by every render; \<open>captured\<close> below is the
  variable \<^verbatim>\<open>error\<close> of the render that made it. \<open>run_begin\<close> is the part before the
  \<^verbatim>\<open>await\<close>. \<open>out\<close> is how \<^verbatim>\<open>await fn(...args)\<close> comes back: the value awaited, or what
  \<open>fn\<close> threw or rejected with. The \<^verbatim>\<open>catch\<close> block also receives what \<open>onComplete\<close> throws,
  since that call is inside the \<^verbatim>\<open>try\<close>; what \<open>onError\<close> throws leaves the function, after
  the \<^verbatim>\<open>finally\<close> block.
\<close>

definition run_begin :: "action \<Rightarrow> action" where
  "run_begin w = w\<lparr>act_cells := act_setError JNull (act_setIsLoading True (act_cells w))\<rparr>"

definition catch_block :: "action_options option \<Rightarrow> jsval \<Rightarrow> jsval \<Rightarrow> action \<Rightarrow> settlement \<times> action" where
  "catch_block opts captured err w =
     (case call_onError opts captured
             (w\<lparr>act_cells :=
                  (if instanceof_Error err then act_setError err (act_cells w)
                   else act_setError (new_Error ''Unknown error occurred.'') (act_cells w))\<rparr>) of
        (Normal v, w') \<Rightarrow> (Fulfilled (result_pair JNull err), w')
      | (Throw x, w') \<Rightarrow> (Rejected x, w'))"

definition try_catch :: "action_options option \<Rightarrow> jsval \<Rightarrow> settlement \<Rightarrow> action \<Rightarrow> settlement \<times> action" where
  "try_catch opts captured out w =
     (case out of
        Fulfilled result \<Rightarrow>
          (case call_onComplete opts (w\<lparr>act_cells := setData result (act_cells w)\<rparr>) of
             (Normal v, w') \<Rightarrow> (Fulfilled (result_pair result JNull), w')
           | (Throw x, w') \<Rightarrow> catch_block opts captured x w')
      | Rejected err \<Rightarrow> catch_block opts captured err w)"

definition run_resume :: "action_options option \<Rightarrow> jsval \<Rightarrow> settlement \<Rightarrow> action \<Rightarrow> settlement \<times> action" where
  "run_resume opts captured out w =
     (case try_catch opts captured out w of
        (p, w') \<Rightarrow> (p, w'\<lparr>act_cells := act_setIsLoading False (act_cells w')\<rparr>))"

text \<open>
  A whole invocation of the \<^verbatim>\<open>run\<close> that the render of state \<open>rendered\<close> made, on the
  live instance \<open>w\<close>: the promise \<^verbatim>\<open>run\<close> returns, and the instance afterwards.
\<close>

definition run :: "action_options option \<Rightarrow> action_state \<Rightarrow> settlement \<Rightarrow> action \<Rightarrow> settlement \<times> action" where
  "run opts rendered out w = run_resume opts (act_error rendered) out (run_begin w)"

section \<open>Predicates and scenarios used in the statements\<close>

text \<open>The data-model invariant \<^verbatim>\<open>isError == (error != None)\<close> on the cells.\<close>

definition error_consistent :: "effect_state \<Rightarrow> bool" where
  "error_consistent s = (isError s = (error s \<noteq> JNull))"



text \<open>
  The fetch in flight that an event settles, if it settles one, and the runs of events
  from a state in which no fetch with a given property settles.
\<close>

fun settled_fetch :: "hook \<Rightarrow> event \<Rightarrow> fetch option" where
  "settled_fetch h (Settle j out) = map_of (inflight h) j"
| "settled_fetch h e = None"

fun settles_none :: "(fetch \<Rightarrow> bool) \<Rightarrow> hook \<Rightarrow> event list \<Rightarrow> bool" where
  "settles_none P h [] = True"
| "settles_none P h (e # es) =
     ((case settled_fetch h e of None \<Rightarrow> True | Some f \<Rightarrow> \<not> P f)
      \<and> settles_none P (step h e) es)"

definition is_manual :: "fetch \<Rightarrow> bool" where
  "is_manual f = (kind f = Manual)"

definition any_fetch :: "fetch \<Rightarrow> bool" where
  "any_fetch f = True"

text \<open>Whether a call returned.\<close>

fun completes_normally :: "completion \<Rightarrow> bool" where
  "completes_normally (Normal v) = True"
| "completes_normally (Throw e) = False"

text \<open>Whether the callback, if the caller gave one, returns when called.\<close>

definition onComplete_returns :: "action_options option \<Rightarrow> bool" where
  "onComplete_returns opts =
     (case opts of
        None \<Rightarrow> True
      | Some obj \<Rightarrow> (case onComplete obj of None \<Rightarrow> True | Some c \<Rightarrow> completes_normally c))"

definition onError_returns :: "action_options option \<Rightarrow> jsval \<Rightarrow> bool" where
  "onError_returns opts arg =
     (case opts of
        None \<Rightarrow> True
      | Some obj \<Rightarrow> (case onError obj of None \<Rightarrow> True | Some f \<Rightarrow> completes_normally (f arg)))"

text \<open>A freshly mounted \<^verbatim>\<open>useAsyncAction\<close>, and two callbacks a caller may pass.\<close>

definition fresh_action :: action where
  "fresh_action = \<lparr>act_cells = useAsyncAction_init, calls = []\<rparr>"

definition quiet_onError :: "jsval \<Rightarrow> completion" where
  "quiet_onError arg = Normal JUndefined"

definition throwing_onError :: "jsval \<Rightarrow> completion" where
  "throwing_onError arg = Throw (JStr ''handler failed'')"

text \<open>
  Scenario: the component mounts, the user calls \<^verbatim>\<open>refresh()\<close> while the mount-time fetch
  (fetch 0) is still in flight, and then the mount-time fetch fulfils. The manual fetch
  is fetch 1.
\<close>

definition refresh_overlapping_mount :: hook where
  "refresh_overlapping_mount =
     run_events (mount [] Options_omitted) [Refresh, Settle 0 (Fulfilled (JStr ''first''))]"

text \<open>
  Scenario: after the mount-time fetch has fulfilled, \<^verbatim>\<open>refresh()\<close> is called twice (fetch 1
  and fetch 2), and the first of the two fulfils.
\<close>

definition refresh_overlapping_refresh :: hook where
  "refresh_overlapping_refresh =
     run_events (mount [] Options_omitted)
       [Settle 0 (Fulfilled (JStr ''first'')), Refresh, Refresh,
        Settle 1 (Fulfilled (JStr ''second''))]"

text \<open>
  Scenario D of the spec: mounted with triggers \<open>[1]\<close>, re-rendered with triggers \<open>[2]\<close>;
  fetch 0 and fetch 1 are then both in flight.
\<close>

definition triggers_changed :: hook where
  "triggers_changed = run_events (mount [1] Options_omitted) [Rerender [2] Options_omitted]"

text \<open>
  Scenario D continued: fetch 0 rejects and then fetch 1 fulfils, both before any
  reaction has run; then the six jobs run.
\<close>

definition settled_in_one_turn :: jobs_state where
  "settled_in_one_turn =
     run_jobs 6
       (promise_settles 1 (Fulfilled (JStr ''for 2''))
         (promise_settles 0 (Rejected (JStr ''boom''))
           \<lparr>inst = triggers_changed, queue = []\<rparr>))"

text \<open>
  A thrown value that \<^verbatim>\<open>String\<close> cannot convert: the object \<^verbatim>\<open>{ toString: 5 }\<close>, as
  \<^verbatim>\<open>JSON.parse\<close> gives it for \<^verbatim>\<open>{"toString": 5}\<close>. Scenario: the mount-time fetch rejects
  with it. Scenario: \<^verbatim>\<open>refresh()\<close> is called after the mount-time fetch has fulfilled, and
  its fetch (fetch 1) rejects with it.
\<close>

definition unprintable :: jsval where
  "unprintable = JObject [(''toString'', JNum 5)]"

definition mount_rejected_unprintable :: hook where
  "mount_rejected_unprintable =
     run_events (mount [] Options_omitted) [Settle 0 (Rejected unprintable)]"


section \<open>Auxiliary facts about the model\<close>

lemmas setter_defs =
  setValue_def setIsLoading_def setIsError_def setError_def setIsRefreshing_def

lemmas handler_defs =
  onFulfilled_def onRejected_def onFinally_refresh_def onFinally_effect_def

lemma effect_chain_fulfilled:
  "effect_chain init (Fulfilled r, s) =
     (Fulfilled JUndefined,
      s\<lparr>val := coalesce r init, isLoading := False, isError := False, error := JNull\<rparr>)"
  by (simp add: effect_chain_def handler_defs setter_defs)

lemma refresh_chain_fulfilled:
  "refresh_chain init (Fulfilled r, s) =
     (Fulfilled JUndefined,
      s\<lparr>val := coalesce r init, isLoading := False, isError := False, error := JNull,
        isRefreshing := False\<rparr>)"
  by (simp add: refresh_chain_def handler_defs setter_defs)

lemma effect_chain_rejected:
  "effect_chain init (Rejected e, s) =
     (if instanceof_Error e
      then (Fulfilled JUndefined, s\<lparr>isLoading := False, isError := True, error := e\<rparr>)
      else
        (case String_js e of
           Inr str \<Rightarrow>
             (Fulfilled JUndefined,
              s\<lparr>isLoading := False, isError := True, error := new_Error str\<rparr>)
         | Inl x \<Rightarrow> (Rejected x, s\<lparr>isLoading := False, isError := True\<rparr>)))"
  by (simp add: effect_chain_def handler_defs setter_defs split: sum.splits)

lemma refresh_chain_rejected:
  "refresh_chain init (Rejected e, s) =
     (if instanceof_Error e
      then (Fulfilled JUndefined,
            s\<lparr>isLoading := False, isError := True, error := e, isRefreshing := False\<rparr>)
      else
        (case String_js e of
           Inr str \<Rightarrow>
             (Fulfilled JUndefined,
              s\<lparr>isLoading := False, isError := True, error := new_Error str,
                isRefreshing := False\<rparr>)
         | Inl x \<Rightarrow>
             (Rejected x, s\<lparr>isLoading := False, isError := True, isRefreshing := False\<rparr>)))"
  by (simp add: refresh_chain_def handler_defs setter_defs split: sum.splits)

lemmas chain_simps =
  effect_chain_fulfilled effect_chain_rejected refresh_chain_fulfilled refresh_chain_rejected

lemma settle_not_inflight: "map_of (inflight h) i = None \<Longrightarrow> settle i out h = h"
  by (simp add: settle_def)

lemma cells_settle_fulfilled:
  "map_of (inflight h) i = Some f \<Longrightarrow>
   cells (settle i (Fulfilled r) h) =
     (cells h)\<lparr>val := coalesce r (captured_initialValue f), isLoading := False,
               isError := False, error := JNull,
               isRefreshing := (kind f = Auto \<and> isRefreshing (cells h))\<rparr>"
  by (cases "kind f") (simp_all add: settle_def chain_simps)

lemma cells_settle_rejected:
  "map_of (inflight h) i = Some f \<Longrightarrow>
   cells (settle i (Rejected e) h) =
     (cells h)\<lparr>isLoading := False, isError := True,
               error := (if instanceof_Error e then e
                         else (case String_js e of
                                 Inr str \<Rightarrow> new_Error str | Inl x \<Rightarrow> error (cells h))),
               isRefreshing := (kind f = Auto \<and> isRefreshing (cells h))\<rparr>"
  by (cases "kind f") (simp_all add: settle_def chain_simps split: sum.splits)

lemma map_of_filter_key:
  "map_of (filter (\<lambda>(j, g). j \<noteq> i) xs) k = (if k = i then None else map_of xs k)"
  by (induction xs) auto

lemma inflight_settle:
  "map_of (inflight (settle i out h)) k = (if k = i then None else map_of (inflight h) k)"
  by (auto simp: settle_def map_of_filter_key
           split: option.splits fetch_kind.splits prod.splits)

lemma func_calls_settle: "func_calls (settle i out h) = func_calls h"
  by (auto simp: settle_def split: option.splits fetch_kind.splits prod.splits)


lemma promise_settle_manual_any:
  "map_of (inflight h) i = Some f \<Longrightarrow> kind f = Manual \<Longrightarrow>
   \<exists>p. refresh_promise (settle i out h) i = Some (Settled p)"
  by (auto simp: settle_def refresh_promise_def split: prod.splits)

lemma promise_settle_other:
  "k \<noteq> i \<Longrightarrow> refresh_promise (settle i out h) k = refresh_promise h k"
  by (auto simp: settle_def refresh_promise_def
           split: option.splits fetch_kind.splits prod.splits)

lemma step_keeps_fetch:
  "i < func_calls h \<Longrightarrow> \<not> settles i e \<Longrightarrow>
   map_of (inflight (step h e)) i = map_of (inflight h) i
   \<and> refresh_promise (step h e) i = refresh_promise h i
   \<and> i < func_calls (step h e)"
  by (cases e)
     (auto simp: rerender_def effect_def refresh_def call_func_def refresh_promise_def
                 inflight_settle func_calls_settle
                 promise_settle_other[unfolded refresh_promise_def])

lemma run_keeps_fetch:
  "i < func_calls h \<Longrightarrow> list_all (\<lambda>e. \<not> settles i e) es \<Longrightarrow>
   map_of (inflight (run_events h es)) i = map_of (inflight h) i
   \<and> refresh_promise (run_events h es) i = refresh_promise h i
   \<and> i < func_calls (run_events h es)"
proof (induction es arbitrary: h)
  case Nil
  then show ?case by (simp add: run_events_def)
next
  case (Cons e es)
  from Cons.prems have e: "\<not> settles i e" and es: "list_all (\<lambda>e. \<not> settles i e) es"
    by simp_all
  from step_keeps_fetch[OF Cons.prems(1) e] Cons.IH[of "step h e", OF _ es]
  show ?case by (simp add: run_events_def)
qed

lemma run_events_snoc: "run_events h (es @ [e]) = step (run_events h es) e"
  by (simp add: run_events_def)

lemma refresh_starts:
  "map_of (inflight (refresh h)) (func_calls h) =
     Some \<lparr>kind = Manual, captured_initialValue = initialValue_of (options h)\<rparr>
   \<and> refresh_promise (refresh h) (func_calls h) = Some Pending
   \<and> func_calls h < func_calls (refresh h)
   \<and> cells (refresh h) = (cells h)\<lparr>isRefreshing := True, isLoading := True\<rparr>"
  by (simp add: refresh_def call_func_def refresh_promise_def setter_defs)

lemma effect_starts:
  "map_of (inflight (effect h)) (func_calls h) =
     Some \<lparr>kind = Auto, captured_initialValue = initialValue_of (options h)\<rparr>
   \<and> func_calls h < func_calls (effect h)
   \<and> cells (effect h) = (cells h)\<lparr>isLoading := True\<rparr>"
  by (simp add: effect_def call_func_def setter_defs)



lemmas model_defs =
  run_events_def mount_def effect_def first_render_def call_func_def refresh_def rerender_def
  settle_def deps_equal_def initialValue_of_def loadingTrueAtStart_of_def chain_simps
  setter_defs coalesce_def new_Error_def refresh_promise_def

lemmas action_defs =
  run_def run_begin_def run_resume_def try_catch_def catch_block_def call_onComplete_def
  call_onError_def setData_def act_setError_def act_setIsLoading_def result_pair_def
  new_Error_def useAsyncAction_init_def fresh_action_def

lemma act_error_catch_block:
  "act_error (act_cells (snd (catch_block opts captured err w))) =
     (if instanceof_Error err then err else new_Error ''Unknown error occurred.'')"
  by (auto simp: catch_block_def call_onError_def act_setError_def
           split: option.splits completion.splits prod.splits)

lemma val_settle_rejected: "val (cells (settle i (Rejected e) h)) = val (cells h)"
proof (cases "map_of (inflight h) i")
  case None
  then show ?thesis by (simp add: settle_not_inflight)
next
  case (Some f)
  then show ?thesis by (simp add: cells_settle_rejected)
qed

lemma deps_equal_refl: "deps_equal ds ds"
  by (induction ds) (simp_all add: deps_equal_def)

text \<open>
  The step \<open>settle\<close> is the settlement of a promise followed by its three jobs, when
  no other job is waiting.
\<close>

lemmas job_defs = promise_settles_def run_job_def

lemma settle_is_three_jobs:
  "queue q = [] \<Longrightarrow>
   inst (run_jobs 3 (promise_settles i out q)) = settle i out (inst q)
   \<and> queue (run_jobs 3 (promise_settles i out q)) = []"
  by (cases "map_of (inflight (inst q)) i")
     (auto simp: eval_nat_numeral job_defs settle_def effect_chain_def refresh_chain_def
           split: stage.splits fetch_kind.splits prod.splits)

lemma two_settled:
  assumes "map_of (inflight h) i = Some f" and "map_of (inflight h) j = Some g" and "i \<noteq> j"
  shows "cells (settle j out' (settle i out h)) =
           snd ((if kind g = Auto then effect_chain (captured_initialValue g)
                 else refresh_chain (captured_initialValue g))
                (out', snd ((if kind f = Auto then effect_chain (captured_initialValue f)
                             else refresh_chain (captured_initialValue f)) (out, cells h))))"
proof -
  from assms have g: "map_of (inflight (settle i out h)) j = Some g"
    by (simp add: inflight_settle)
  show ?thesis
    using assms(1) g
    by (cases "kind f"; cases "kind g") (simp_all add: settle_def split: prod.splits)
qed

lemma onRejected_writes:
  "\<exists>c w. \<forall>e s. onRejected e s = (c e, s\<lparr>isError := True, error := w e (error s)\<rparr>)"
proof -
  define c where "c = (\<lambda>e. fst (onRejected e undefined))"
  define w where "w = (\<lambda>e old. if instanceof_Error e then e
                     else (case String_js e of Inr str \<Rightarrow> new_Error str | Inl x \<Rightarrow> old))"
  have "\<forall>e s. onRejected e s = (c e, s\<lparr>isError := True, error := w e (error s)\<rparr>)"
    by (auto simp: c_def w_def onRejected_def setter_defs split: sum.splits)
  then show ?thesis by blast
qed



lemma jobs_interleaved:
  assumes "map_of (inflight h) i = Some f" and "map_of (inflight h) j = Some g" and "i \<noteq> j"
    and "k < 3" and "\<not> (k = 0 \<and> is_rejected out \<and> \<not> is_rejected out')"
  shows "queue (run_jobs (6 - k) (promise_settles j out'
           (run_jobs k (promise_settles i out \<lparr>inst = h, queue = []\<rparr>)))) = []
       \<and> cells (inst (run_jobs (6 - k) (promise_settles j out'
           (run_jobs k (promise_settles i out \<lparr>inst = h, queue = []\<rparr>))))) =
         cells (settle j out' (settle i out h))"
proof -
  from onRejected_writes obtain c w where
    oR: "\<And>e s. onRejected e s = (c e, s\<lparr>isError := True, error := w e (error s)\<rparr>)"
    by blast
  note defs = eval_nat_numeral job_defs map_of_filter_key effect_chain_def refresh_chain_def
    onFulfilled_def onFinally_refresh_def onFinally_effect_def setter_defs oR
  from assms(4) have "k = 0 \<or> k = 1 \<or> k = 2" by arith
  then show ?thesis
  proof (elim disjE)
    assume k: "k = 0"
    with assms show ?thesis
      unfolding two_settled[OF assms(1-3)]
      by (cases out; cases out'; cases "kind f"; cases "kind g") (simp_all add: defs)
  next
    assume k: "k = 1"
    with assms show ?thesis
      unfolding two_settled[OF assms(1-3)]
      by (cases out; cases out'; cases "kind f"; cases "kind g") (simp_all add: defs)
  next
    assume k: "k = 2"
    with assms show ?thesis
      unfolding two_settled[OF assms(1-3)]
      by (cases out; cases out'; cases "kind f"; cases "kind g") (simp_all add: defs)
  qed
qed

lemma isRefreshing_settle_auto:
  "map_of (inflight h) j = Some g \<Longrightarrow> kind g = Auto \<Longrightarrow>
   isRefreshing (cells (settle j out h)) = isRefreshing (cells h)"
  by (cases out) (simp_all add: cells_settle_fulfilled cells_settle_rejected)

lemma flags_settle:
  "map_of (inflight h) j = Some g \<Longrightarrow>
   \<not> isLoading (cells (settle j out h))
   \<and> (kind g = Manual \<longrightarrow> \<not> isRefreshing (cells (settle j out h)))"
  by (cases out) (simp_all add: cells_settle_fulfilled cells_settle_rejected)

text \<open>A pending refresh and its flag survive every step that settles no manual fetch.\<close>

lemma step_keeps_refreshing:
  assumes "map_of (inflight h) i = Some f" and "kind f = Manual" and "i < func_calls h"
    and "refresh_promise h i = Some Pending" and "isRefreshing (cells h)"
    and "case settled_fetch h e of None \<Rightarrow> True | Some g \<Rightarrow> \<not> is_manual g"
  shows "map_of (inflight (step h e)) i = Some f \<and> i < func_calls (step h e)
       \<and> refresh_promise (step h e) i = Some Pending \<and> isRefreshing (cells (step h e))"
proof -
  from assms(1,2,6) have ns: "\<not> settles i e"
    by (cases e) (auto simp: is_manual_def)
  from step_keeps_fetch[OF assms(3) ns] assms(1,4)
  have a: "map_of (inflight (step h e)) i = Some f" "i < func_calls (step h e)"
    "refresh_promise (step h e) i = Some Pending"
    by simp_all
  have "isRefreshing (cells (step h e))"
  proof (cases e)
    case (Settle j out)
    show ?thesis
    proof (cases "map_of (inflight h) j")
      case None
      with Settle assms(5) show ?thesis by (simp add: settle_not_inflight)
    next
      case (Some g)
      with Settle assms(6) have "kind g = Auto"
        by (cases "kind g") (simp_all add: is_manual_def)
      from isRefreshing_settle_auto[OF Some this] Settle assms(5) show ?thesis by simp
    qed
  next
    case (Rerender ds arg)
    with assms(5) show ?thesis
      by (simp add: rerender_def effect_def call_func_def setter_defs)
  next
    case Refresh
    then show ?thesis by (simp add: refresh_def call_func_def setter_defs)
  qed
  with a show ?thesis by simp
qed

lemma run_keeps_refreshing:
  "map_of (inflight h) i = Some f \<Longrightarrow> kind f = Manual \<Longrightarrow> i < func_calls h \<Longrightarrow>
   refresh_promise h i = Some Pending \<Longrightarrow> isRefreshing (cells h) \<Longrightarrow>
   settles_none is_manual h es \<Longrightarrow>
   refresh_promise (run_events h es) i = Some Pending \<and> isRefreshing (cells (run_events h es))"
proof (induction es arbitrary: h)
  case Nil
  then show ?case by (simp add: run_events_def)
next
  case (Cons e es)
  from Cons.prems(6)
  have e: "case settled_fetch h e of None \<Rightarrow> True | Some g \<Rightarrow> \<not> is_manual g"
    and es: "settles_none is_manual (step h e) es"
    by simp_all
  from step_keeps_refreshing[OF Cons.prems(1-5) e]
  have "map_of (inflight (step h e)) i = Some f" "i < func_calls (step h e)"
    "refresh_promise (step h e) i = Some Pending" "isRefreshing (cells (step h e))"
    by simp_all
  from Cons.IH[OF this(1) Cons.prems(2) this(2-4) es]
  show ?case by (simp add: run_events_def)
qed

lemma step_keeps_loading:
  assumes "isLoading (cells h)"
    and "case settled_fetch h e of None \<Rightarrow> True | Some g \<Rightarrow> \<not> any_fetch g"
  shows "isLoading (cells (step h e))"
proof (cases e)
  case (Settle j out)
  with assms(2) have "map_of (inflight h) j = None"
    by (cases "map_of (inflight h) j") (simp_all add: any_fetch_def)
  with Settle assms(1) show ?thesis by (simp add: settle_not_inflight)
next
  case (Rerender ds arg)
  with assms(1) show ?thesis
    by (simp add: rerender_def effect_def call_func_def setter_defs)
next
  case Refresh
  then show ?thesis by (simp add: refresh_def call_func_def setter_defs)
qed

lemma run_keeps_loading:
  "isLoading (cells h) \<Longrightarrow> settles_none any_fetch h es \<Longrightarrow>
   isLoading (cells (run_events h es))"
proof (induction es arbitrary: h)
  case Nil
  then show ?case by (simp add: run_events_def)
next
  case (Cons e es)
  from Cons.prems(2)
  have e: "case settled_fetch h e of None \<Rightarrow> True | Some g \<Rightarrow> \<not> any_fetch g"
    and es: "settles_none any_fetch (step h e) es"
    by simp_all
  from Cons.IH[OF step_keeps_loading[OF Cons.prems(1) e] es]
  show ?case by (simp add: run_events_def)
qed

section \<open>The refresh promise (C1)\<close>




section \<open>The stored error (C2)\<close>

text \<open>
  Claim C2 says that both hooks turn a thrown value that is not an \<^verbatim>\<open>Error\<close> into an
  error object whose message is the string form of that value. \<^verbatim>\<open>useAsyncAction\<close> does
  not: when its \<open>fn\<close> rejects with the string \<^verbatim>\<open>"boom"\<close>, whose string form is \<^verbatim>\<open>"boom"\<close>,
  the message of the stored error is not \<^verbatim>\<open>"boom"\<close>.
\<close>

theorem action_error_message_counterexample:
  "String_js (JStr ''boom'') = Inr ''boom''
   \<and> message (act_error (act_cells (snd (run None useAsyncAction_init (Rejected (JStr ''boom''))
       fresh_action)))) \<noteq> Some (JStr ''boom'')"
  by (simp add: action_defs)

text \<open>
  Claim C2, amended. When a fetch of \<^verbatim>\<open>useAsyncStateEffect\<close> that is in flight rejects
  with \<open>e\<close>, the cell \<open>error\<close> holds \<open>e\<close> itself if \<open>e\<close> is an \<^verbatim>\<open>Error\<close> instance; if it is not
  and \<^verbatim>\<open>String(e)\<close> is the string \<open>str\<close>, the cell holds an \<^verbatim>\<open>Error\<close> whose message is \<open>str\<close>.
  When an invocation of \<^verbatim>\<open>run\<close> of \<^verbatim>\<open>useAsyncAction\<close> fails with \<open>e\<close>, the cell \<open>error\<close> holds
  \<open>e\<close> itself if \<open>e\<close> is an \<^verbatim>\<open>Error\<close> instance, and otherwise an \<^verbatim>\<open>Error\<close> with the fixed
  message \<^verbatim>\<open>"Unknown error occurred."\<close>.
\<close>

theorem stored_error_of_failure:
  "(map_of (inflight h) i = Some f \<and> instanceof_Error e \<longrightarrow>
      error (cells (settle i (Rejected e) h)) = e)
   \<and> (map_of (inflight h) i = Some f \<and> \<not> instanceof_Error e \<and> String_js e = Inr str \<longrightarrow>
      error (cells (settle i (Rejected e) h)) = new_Error str
      \<and> instanceof_Error (error (cells (settle i (Rejected e) h)))
      \<and> message (error (cells (settle i (Rejected e) h))) = Some (JStr str))
   \<and> act_error (act_cells (snd (run opts rendered (Rejected e) w))) =
        (if instanceof_Error e then e else new_Error ''Unknown error occurred.'')
   \<and> (\<not> instanceof_Error e \<longrightarrow>
        message (act_error (act_cells (snd (run opts rendered (Rejected e) w))))
          = Some (JStr ''Unknown error occurred.''))"
proof -
  have a: "act_error (act_cells (snd (run opts rendered (Rejected e) w))) =
        (if instanceof_Error e then e else new_Error ''Unknown error occurred.'')"
    using act_error_catch_block[of opts "act_error rendered" e "run_begin w"]
    by (simp add: run_def run_resume_def try_catch_def act_setIsLoading_def case_prod_unfold)
  show ?thesis
    by (simp add: a cells_settle_rejected new_Error_def)
qed

theorem stored_error_of_failure_witness:
  "map_of (inflight (mount [] Options_omitted)) 0
     = Some \<lparr>kind = Auto, captured_initialValue = JUndefined\<rparr>
   \<and> \<not> instanceof_Error (JStr ''boom'')
   \<and> String_js (JStr ''boom'') = Inr ''boom''
   \<and> message (error (cells (settle 0 (Rejected (JStr ''boom'')) (mount [] Options_omitted))))
       = Some (JStr ''boom'')
   \<and> message (act_error (act_cells (snd (run None useAsyncAction_init (Rejected (JStr ''boom''))
       fresh_action)))) = Some (JStr ''Unknown error occurred.'')"
  using stored_error_of_failure[of "mount [] Options_omitted" 0
          "\<lparr>kind = Auto, captured_initialValue = JUndefined\<rparr>" "JStr ''boom''" "''boom''"
          None useAsyncAction_init fresh_action]
  by (simp add: mount_def effect_def first_render_def call_func_def initialValue_of_def
                new_Error_def)

section \<open>Overlapping fetches (C3)\<close>

text \<open>
  Claim C3 says that the visible error is the one written by the fetch that settles
  last. It is not when the earlier fetch rejects and the later one fulfils before any
  reaction has run: the handler of a rejection runs one job later than the handler of a
  fulfilment, so here it runs last. In scenario D, fetch 0 rejects, then fetch 1
  fulfils; once the jobs have run, \<open>val\<close> is the result of fetch 1, which also cleared the
  error, and yet \<open>isError\<close> is true and \<open>error\<close> is the error of fetch 0.
\<close>

theorem same_turn_counterexample:
  "queue settled_in_one_turn = []
   \<and> val (cells (inst settled_in_one_turn)) = JStr ''for 2''
   \<and> isError (cells (inst settled_in_one_turn))
   \<and> error (cells (inst settled_in_one_turn)) = JError ''Error'' ''boom''"
  by (simp add: settled_in_one_turn_def triggers_changed_def eval_nat_numeral job_defs
                model_defs handler_defs)

text \<open>
  Claim C3, amended. Let two different fetches \<open>i\<close> and \<open>j\<close> be in flight, of either kind
  and started in either order, and let \<open>i\<close> settle first, in any way. If the reactions of
  \<open>i\<close> have run when \<open>j\<close> settles, then: when \<open>j\<close> fulfils, \<open>val\<close> is its result (or its
  \<open>initialValue\<close> for a null-like result) and the error is cleared; when \<open>j\<close> rejects,
  \<open>isError\<close> is true, \<open>error\<close> is the thrown \<^verbatim>\<open>Error\<close> or an \<^verbatim>\<open>Error\<close> made of the string form
  of the thrown value, where it has one, and \<open>val\<close> stays as the first settlement left
  it. Nothing compares \<open>i\<close> with \<open>j\<close>: the later write is made even when \<open>j\<close> was started
  first. If only \<open>k\<close> of the three reactions of \<open>i\<close> have run when \<open>j\<close> settles, the cells
  end up the same once all six have run, except in the one case above: no reaction has
  run, \<open>i\<close> rejects and \<open>j\<close> fulfils.
\<close>

theorem last_settlement_wins:
  assumes "map_of (inflight h) i = Some f" and "map_of (inflight h) j = Some g" and "i \<noteq> j"
  shows "val (cells (settle j (Fulfilled r) (settle i out h))) = coalesce r (captured_initialValue g)
       \<and> error (cells (settle j (Fulfilled r) (settle i out h))) = JNull
       \<and> \<not> isError (cells (settle j (Fulfilled r) (settle i out h)))
       \<and> (instanceof_Error e \<longrightarrow> error (cells (settle j (Rejected e) (settle i out h))) = e)
       \<and> (\<not> instanceof_Error e \<and> String_js e = Inr str \<longrightarrow>
            error (cells (settle j (Rejected e) (settle i out h))) = new_Error str)
       \<and> isError (cells (settle j (Rejected e) (settle i out h)))
       \<and> val (cells (settle j (Rejected e) (settle i out h))) = val (cells (settle i out h))
       \<and> (k \<le> 3 \<and> \<not> (k = 0 \<and> is_rejected out \<and> \<not> is_rejected out') \<longrightarrow>
            queue (run_jobs (6 - k) (promise_settles j out'
              (run_jobs k (promise_settles i out \<lparr>inst = h, queue = []\<rparr>)))) = []
          \<and> cells (inst (run_jobs (6 - k) (promise_settles j out'
              (run_jobs k (promise_settles i out \<lparr>inst = h, queue = []\<rparr>))))) =
            cells (settle j out' (settle i out h)))"
proof -
  from assms have g: "map_of (inflight (settle i out h)) j = Some g"
    by (simp add: inflight_settle)
  have seq: "val (cells (settle j (Fulfilled r) (settle i out h))) = coalesce r (captured_initialValue g)
       \<and> error (cells (settle j (Fulfilled r) (settle i out h))) = JNull
       \<and> \<not> isError (cells (settle j (Fulfilled r) (settle i out h)))
       \<and> (instanceof_Error e \<longrightarrow> error (cells (settle j (Rejected e) (settle i out h))) = e)
       \<and> (\<not> instanceof_Error e \<and> String_js e = Inr str \<longrightarrow>
            error (cells (settle j (Rejected e) (settle i out h))) = new_Error str)
       \<and> isError (cells (settle j (Rejected e) (settle i out h)))
       \<and> val (cells (settle j (Rejected e) (settle i out h))) = val (cells (settle i out h))"
    by (simp add: cells_settle_fulfilled[OF g] cells_settle_rejected[OF g])
  have jobs: "k \<le> 3 \<and> \<not> (k = 0 \<and> is_rejected out \<and> \<not> is_rejected out') \<longrightarrow>
            queue (run_jobs (6 - k) (promise_settles j out'
              (run_jobs k (promise_settles i out \<lparr>inst = h, queue = []\<rparr>)))) = []
          \<and> cells (inst (run_jobs (6 - k) (promise_settles j out'
              (run_jobs k (promise_settles i out \<lparr>inst = h, queue = []\<rparr>))))) =
            cells (settle j out' (settle i out h))"
  proof (intro impI, elim conjE)
    assume k: "k \<le> 3" and ex: "\<not> (k = 0 \<and> is_rejected out \<and> \<not> is_rejected out')"
    show "queue (run_jobs (6 - k) (promise_settles j out'
              (run_jobs k (promise_settles i out \<lparr>inst = h, queue = []\<rparr>)))) = []
          \<and> cells (inst (run_jobs (6 - k) (promise_settles j out'
              (run_jobs k (promise_settles i out \<lparr>inst = h, queue = []\<rparr>))))) =
            cells (settle j out' (settle i out h))"
    proof (cases "k = 3")
      case True
      have a: "queue \<lparr>inst = h, queue = []\<rparr> = []" by simp
      from settle_is_three_jobs[OF a, of i out]
      have b: "inst (run_jobs 3 (promise_settles i out \<lparr>inst = h, queue = []\<rparr>)) = settle i out h"
        and c: "queue (run_jobs 3 (promise_settles i out \<lparr>inst = h, queue = []\<rparr>)) = []"
        by simp_all
      from settle_is_three_jobs[OF c, of j out'] b True show ?thesis by simp
    next
      case False
      with k have "k < 3" by simp
      from jobs_interleaved[OF assms this ex] show ?thesis .
    qed
  qed
  from seq jobs show ?thesis by blast
qed

theorem last_settlement_wins_witness:
  "map_of (inflight triggers_changed) 1 = Some \<lparr>kind = Auto, captured_initialValue = JUndefined\<rparr>
   \<and> map_of (inflight triggers_changed) 0 = Some \<lparr>kind = Auto, captured_initialValue = JUndefined\<rparr>
   \<and> val (cells (settle 0 (Fulfilled (JStr ''for 1'')) (settle 1 (Fulfilled (JStr ''for 2''))
        triggers_changed))) = JStr ''for 1''
   \<and> cells (inst (run_jobs 6 (promise_settles 0 (Rejected (JStr ''boom''))
        (promise_settles 1 (Fulfilled (JStr ''for 2'')) \<lparr>inst = triggers_changed, queue = []\<rparr>))))
      = cells (settle 0 (Rejected (JStr ''boom'')) (settle 1 (Fulfilled (JStr ''for 2''))
          triggers_changed))"
proof -
  have a: "map_of (inflight triggers_changed) 1
             = Some \<lparr>kind = Auto, captured_initialValue = JUndefined\<rparr>"
    and b: "map_of (inflight triggers_changed) 0
             = Some \<lparr>kind = Auto, captured_initialValue = JUndefined\<rparr>"
    by (simp_all add: triggers_changed_def model_defs)
  have c: "(1::nat) \<noteq> 0" by simp
  from last_settlement_wins[OF a b c, of "JStr ''for 1''" "Fulfilled (JStr ''for 2'')" _ _ 0
         "Rejected (JStr ''boom'')"] a b
  show ?thesis by (simp add: coalesce_def)
qed

section \<open>Successful completion (C4)\<close>

text \<open>
  Claim C4. A fetch is started on \<open>h\<close> by \<^verbatim>\<open>refresh()\<close> or by the effect, and fulfils with
  \<open>r\<close> after any events \<open>es\<close> that do not settle it. Then \<open>val\<close> is the \<open>initialValue\<close> of the
  options \<open>h\<close> was rendered with if \<open>r\<close> is \<^verbatim>\<open>null\<close> or \<^verbatim>\<open>undefined\<close>, and \<open>r\<close> otherwise;
  \<open>isError\<close> is false and \<open>error\<close> is \<^verbatim>\<open>null\<close>.
\<close>

theorem success_sets_value_and_clears_error:
  assumes "list_all (\<lambda>e. \<not> settles (func_calls h) e) es"
  shows "val (cells (run_events (refresh h) (es @ [Settle (func_calls h) (Fulfilled r)]))) =
           (if nullish r then initialValue_of (options h) else r)
       \<and> \<not> isError (cells (run_events (refresh h) (es @ [Settle (func_calls h) (Fulfilled r)])))
       \<and> error (cells (run_events (refresh h) (es @ [Settle (func_calls h) (Fulfilled r)]))) = JNull
       \<and> val (cells (run_events (effect h) (es @ [Settle (func_calls h) (Fulfilled r)]))) =
           (if nullish r then initialValue_of (options h) else r)
       \<and> \<not> isError (cells (run_events (effect h) (es @ [Settle (func_calls h) (Fulfilled r)])))
       \<and> error (cells (run_events (effect h) (es @ [Settle (func_calls h) (Fulfilled r)]))) = JNull"
proof -
  let ?i = "func_calls h"
  from refresh_starts[of h] have "?i < func_calls (refresh h)" by simp
  from run_keeps_fetch[OF this assms] refresh_starts[of h]
  have m: "map_of (inflight (run_events (refresh h) es)) ?i =
             Some \<lparr>kind = Manual, captured_initialValue = initialValue_of (options h)\<rparr>"
    by simp
  from effect_starts[of h] have "?i < func_calls (effect h)" by simp
  from run_keeps_fetch[OF this assms] effect_starts[of h]
  have a: "map_of (inflight (run_events (effect h) es)) ?i =
             Some \<lparr>kind = Auto, captured_initialValue = initialValue_of (options h)\<rparr>"
    by simp
  show ?thesis
    by (simp add: run_events_snoc cells_settle_fulfilled[OF m] cells_settle_fulfilled[OF a]
                  coalesce_def)
qed

theorem success_sets_value_and_clears_error_witness:
  "val (cells (run_events
         (refresh (mount [] (Options \<lparr>initialValue = JStr ''anon'', loadingTrueAtStart = None\<rparr>)))
         [Settle 0 (Rejected (JStr ''boom'')), Settle 1 (Fulfilled JNull)])) = JStr ''anon''
   \<and> error (cells (run_events
         (refresh (mount [] (Options \<lparr>initialValue = JStr ''anon'', loadingTrueAtStart = None\<rparr>)))
         [Settle 0 (Rejected (JStr ''boom'')), Settle 1 (Fulfilled JNull)])) = JNull"
proof -
  have h: "list_all (\<lambda>e. \<not> settles (func_calls
            (mount [] (Options \<lparr>initialValue = JStr ''anon'', loadingTrueAtStart = None\<rparr>))) e)
            [Settle 0 (Rejected (JStr ''boom''))]"
    by (simp add: model_defs)
  from success_sets_value_and_clears_error[OF h, of JNull]
  show ?thesis by (simp add: model_defs)
qed

section \<open>Failed completion (C5)\<close>

text \<open>
  Claim C5. A rejection never writes \<open>val\<close>: the settlement of a fetch with a rejection
  leaves \<open>val\<close> as it was, in every state. For a whole failed attempt, from the call of
  \<^verbatim>\<open>refresh()\<close> or the run of the effect on \<open>h\<close> to the rejection, the cells afterwards
  differ from those of \<open>h\<close> in \<open>isLoading\<close>, \<open>isError\<close> and \<open>error\<close> at most, and in
  \<open>isRefreshing\<close> as well on the manual path: with \<open>error\<close> set to the same \<open>x\<close> on both
  sides, they are the cells of \<open>h\<close> with those flags written.
\<close>

theorem failure_keeps_value:
  "val (cells (settle i (Rejected e) h)) = val (cells h)
   \<and> val (cells (run_events (refresh h) [Settle (func_calls h) (Rejected e)])) = val (cells h)
   \<and> val (cells (run_events (effect h) [Settle (func_calls h) (Rejected e)])) = val (cells h)
   \<and> (cells (run_events (effect h) [Settle (func_calls h) (Rejected e)]))\<lparr>error := x\<rparr> =
       (cells h)\<lparr>isLoading := False, isError := True, error := x\<rparr>
   \<and> (cells (run_events (refresh h) [Settle (func_calls h) (Rejected e)]))\<lparr>error := x\<rparr> =
       (cells h)\<lparr>isLoading := False, isError := True, error := x, isRefreshing := False\<rparr>"
proof -
  from refresh_starts[of h] effect_starts[of h]
  show ?thesis
    by (simp add: val_settle_rejected run_events_def cells_settle_rejected)
qed

theorem failure_keeps_value_witness:
  "val (cells (run_events (mount [] (Options \<lparr>initialValue = JStr ''anon'', loadingTrueAtStart = Some False\<rparr>))
         [Settle 0 (Fulfilled (JStr ''Ada'')), Refresh, Settle 1 (Rejected (JStr ''boom''))]))
     = JStr ''Ada''
   \<and> error (cells (run_events (mount [] (Options \<lparr>initialValue = JStr ''anon'', loadingTrueAtStart = Some False\<rparr>))
         [Settle 0 (Fulfilled (JStr ''Ada'')), Refresh, Settle 1 (Rejected (JStr ''boom''))]))
     = JError ''Error'' ''boom''"
  using failure_keeps_value[of 1 "JStr ''boom''"
          "run_events (mount [] (Options \<lparr>initialValue = JStr ''anon'', loadingTrueAtStart = Some False\<rparr>))
             [Settle 0 (Fulfilled (JStr ''Ada'')), Refresh]"]
  by (simp add: model_defs)

section \<open>The flags during a refresh (C6)\<close>

text \<open>
  Claim C6 says that \<open>isRefreshing\<close> and \<open>isLoading\<close> are true for as long as the promise
  of \<^verbatim>\<open>refresh()\<close> is unsettled. Neither is when an overlapping fetch settles first.
  \<^verbatim>\<open>refresh()\<close> is called during the mount-time fetch and that fetch fulfils: its
  \<^verbatim>\<open>finally\<close> handler sets \<open>isLoading\<close> to false while the promise of the refresh
  (fetch 1) is pending. \<^verbatim>\<open>refresh()\<close> is called twice and the first of the two fetches
  fulfils: its \<^verbatim>\<open>finally\<close> handler sets both flags to false while the promise of the
  second call (fetch 2) is pending.
\<close>

theorem refresh_flags_counterexample:
  "refresh_promise refresh_overlapping_mount 1 = Some Pending
   \<and> \<not> isLoading (cells refresh_overlapping_mount)
   \<and> refresh_promise refresh_overlapping_refresh 2 = Some Pending
   \<and> \<not> isRefreshing (cells refresh_overlapping_refresh)
   \<and> \<not> isLoading (cells refresh_overlapping_refresh)"
  by (simp add: refresh_overlapping_mount_def refresh_overlapping_refresh_def model_defs)

text \<open>
  Claim C6, amended. After a call of \<^verbatim>\<open>refresh()\<close> on any instance \<open>h\<close>, the returned
  promise is pending and \<open>isRefreshing\<close> is true for as long as no manual fetch of the
  instance settles, and \<open>isLoading\<close> is true for as long as no fetch of the instance
  settles (renders and further refreshes may happen). Once the fetch of this call
  settles, with a result or a rejection and after any events that do not settle it,
  the promise is settled and both flags are false.
\<close>

theorem refresh_flags:
  "(settles_none is_manual (refresh h) es \<longrightarrow>
      refresh_promise (run_events (refresh h) es) (func_calls h) = Some Pending
      \<and> isRefreshing (cells (run_events (refresh h) es)))
   \<and> (settles_none any_fetch (refresh h) es \<longrightarrow>
      isLoading (cells (run_events (refresh h) es)))
   \<and> (list_all (\<lambda>e. \<not> settles (func_calls h) e) es \<longrightarrow>
      (\<exists>p. refresh_promise (run_events (refresh h) (es @ [Settle (func_calls h) out]))
              (func_calls h) = Some (Settled p))
      \<and> \<not> isRefreshing (cells (run_events (refresh h) (es @ [Settle (func_calls h) out])))
      \<and> \<not> isLoading (cells (run_events (refresh h) (es @ [Settle (func_calls h) out]))))"
proof (intro conjI impI)
  let ?i = "func_calls h"
  let ?f = "\<lparr>kind = Manual, captured_initialValue = initialValue_of (options h)\<rparr>"
  from refresh_starts[of h]
  have fl: "map_of (inflight (refresh h)) ?i = Some ?f"
    and pend: "refresh_promise (refresh h) ?i = Some Pending"
    and lt: "?i < func_calls (refresh h)"
    and rf: "isRefreshing (cells (refresh h))"
    and ld: "isLoading (cells (refresh h))"
    by simp_all
  have man: "kind ?f = Manual" by simp
  {
    assume a: "settles_none is_manual (refresh h) es"
    from run_keeps_refreshing[OF fl man lt pend rf a]
    show "refresh_promise (run_events (refresh h) es) ?i = Some Pending"
      and "isRefreshing (cells (run_events (refresh h) es))" by simp_all
  }
  {
    assume a: "settles_none any_fetch (refresh h) es"
    from run_keeps_loading[OF ld a]
    show "isLoading (cells (run_events (refresh h) es))" .
  }
  {
    assume b: "list_all (\<lambda>e. \<not> settles ?i e) es"
    from run_keeps_fetch[OF lt b] fl
    have fl': "map_of (inflight (run_events (refresh h) es)) ?i = Some ?f"
      by simp
    from promise_settle_manual_any[OF fl' man, of out]
    show "\<exists>p. refresh_promise (run_events (refresh h) (es @ [Settle ?i out])) ?i
            = Some (Settled p)"
      by (simp add: run_events_snoc)
    from flags_settle[OF fl', of out]
    show "\<not> isRefreshing (cells (run_events (refresh h) (es @ [Settle ?i out])))"
      and "\<not> isLoading (cells (run_events (refresh h) (es @ [Settle ?i out])))"
      by (simp_all add: run_events_snoc)
  }
qed

theorem refresh_flags_witness:
  "settles_none is_manual (refresh (mount [] Options_omitted))
     [Settle 0 (Fulfilled JNull), Rerender [] Options_null]
   \<and> isRefreshing (cells (run_events (refresh (mount [] Options_omitted))
        [Settle 0 (Fulfilled JNull), Rerender [] Options_null]))
   \<and> settles_none any_fetch (refresh (mount [] Options_omitted)) [Rerender [] Options_null, Refresh]
   \<and> isLoading (cells (run_events (refresh (mount [] Options_omitted))
        [Rerender [] Options_null, Refresh]))
   \<and> \<not> isRefreshing (cells (run_events (refresh (mount [] Options_omitted))
        [Rerender [] Options_null, Refresh, Settle 1 (Fulfilled JNull)]))"
  using refresh_flags[of "mount [] Options_omitted"
          "[Settle 0 (Fulfilled JNull), Rerender [] Options_null]" "Fulfilled JNull"]
        refresh_flags[of "mount [] Options_omitted" "[Rerender [] Options_null, Refresh]"
          "Fulfilled JNull"]
  by (simp add: model_defs is_manual_def any_fetch_def)

section \<open>The mount-time fetch (C7)\<close>

text \<open>
  Claim C7. The first render starts no fetch; the effect that follows it starts exactly
  one, an automatic one, whatever the options are, and a re-render with the same triggers
  starts no other. \<open>loadingTrueAtStart\<close> (true when missing) is the value of \<open>isLoading\<close> in
  the first render and nothing else: two option objects that differ only in it give
  first renders that differ only in \<open>isLoading\<close>, and the same cells and the same fetch
  in flight once the effect has run.
\<close>

theorem mount_schedules_one_fetch:
  "inflight (first_render ds arg) = []
   \<and> inflight (mount ds arg) = [(0, \<lparr>kind = Auto, captured_initialValue = initialValue_of arg\<rparr>)]
   \<and> func_calls (mount ds arg) = 1
   \<and> func_calls (rerender ds arg' (mount ds arg)) = 1
   \<and> isLoading (cells (first_render ds arg)) = loadingTrueAtStart_of arg
   \<and> loadingTrueAtStart_of (Options (obj\<lparr>loadingTrueAtStart := Some b\<rparr>)) = b
   \<and> loadingTrueAtStart_of (Options (obj\<lparr>loadingTrueAtStart := None\<rparr>)) = True
   \<and> (cells (first_render ds (Options (obj\<lparr>loadingTrueAtStart := a\<rparr>))))\<lparr>isLoading := x\<rparr> =
       (cells (first_render ds (Options (obj\<lparr>loadingTrueAtStart := c\<rparr>))))\<lparr>isLoading := x\<rparr>
   \<and> cells (mount ds (Options (obj\<lparr>loadingTrueAtStart := a\<rparr>))) =
       cells (mount ds (Options (obj\<lparr>loadingTrueAtStart := c\<rparr>)))
   \<and> inflight (mount ds (Options (obj\<lparr>loadingTrueAtStart := a\<rparr>))) =
       inflight (mount ds (Options (obj\<lparr>loadingTrueAtStart := c\<rparr>)))"
  by (simp add: mount_def effect_def first_render_def call_func_def rerender_def
                deps_equal_refl initialValue_of_def loadingTrueAtStart_of_def setter_defs)

theorem mount_schedules_one_fetch_witness:
  "func_calls (mount [1] (Options \<lparr>initialValue = JNull, loadingTrueAtStart = Some False\<rparr>)) = 1
   \<and> \<not> isLoading (cells (first_render [1]
          (Options \<lparr>initialValue = JNull, loadingTrueAtStart = Some False\<rparr>)))
   \<and> isLoading (cells (mount [1]
          (Options \<lparr>initialValue = JNull, loadingTrueAtStart = Some False\<rparr>)))"
  using mount_schedules_one_fetch[of "[1]"
          "Options \<lparr>initialValue = JNull, loadingTrueAtStart = Some False\<rparr>"]
  by (simp add: model_defs)

section \<open>The invariant of the error cells (C8)\<close>

text \<open>
  Claim C8. \<^verbatim>\<open>isError == (error != None)\<close> is to hold in every state of the instance. The
  two cells are written by the same handlers, but the rejection handler writes \<open>isError\<close>
  first and evaluates \<^verbatim>\<open>String(err)\<close> before it writes \<open>error\<close>. When the mount-time fetch
  rejects with \<^verbatim>\<open>{ toString: 5 }\<close>, that conversion throws: \<open>isError\<close> is true, \<open>error\<close> is
  still \<^verbatim>\<open>null\<close>, and the invariant is broken.
\<close>

theorem error_consistent_broken:
  "isError (cells mount_rejected_unprintable)
   \<and> error (cells mount_rejected_unprintable) = JNull
   \<and> \<not> error_consistent (cells mount_rejected_unprintable)"
  by (simp add: mount_rejected_unprintable_def unprintable_def error_consistent_def model_defs)

section \<open>The argument of onError (C9)\<close>

text \<open>
  Claim C9. When \<open>fn\<close> fails with \<open>e\<close> and the caller gave an \<open>onError\<close> callback, the one
  call made to a callback is \<open>onError\<close> with the \<^verbatim>\<open>error\<close> variable of the render that made
  this \<^verbatim>\<open>run\<close>: the state before the invocation, whatever \<open>e\<close> is.
\<close>

theorem onError_receives_captured_error:
  assumes "onError obj = Some cb"
  shows "calls (snd (run (Some obj) rendered (Rejected e) w)) =
           calls w @ [Called_onError (act_error rendered)]"
  using assms
  by (simp add: run_def run_begin_def run_resume_def try_catch_def catch_block_def
                call_onError_def split: completion.splits)

theorem onError_receives_captured_error_witness:
  "onError \<lparr>onComplete = None, onError = Some quiet_onError\<rparr> = Some quiet_onError
   \<and> calls (snd (run (Some \<lparr>onComplete = None, onError = Some quiet_onError\<rparr>)
        useAsyncAction_init (Rejected (JStr ''boom'')) fresh_action)) = [Called_onError JNull]
   \<and> calls (snd (run (Some \<lparr>onComplete = None, onError = Some quiet_onError\<rparr>)
        \<lparr>data = JNull, act_error = JError ''Error'' ''first'', act_isLoading = False\<rparr>
        (Rejected (JError ''Error'' ''second'')) fresh_action))
       = [Called_onError (JError ''Error'' ''first'')]"
  using onError_receives_captured_error[of "\<lparr>onComplete = None, onError = Some quiet_onError\<rparr>"
          quiet_onError useAsyncAction_init "JStr ''boom''" fresh_action]
        onError_receives_captured_error[of "\<lparr>onComplete = None, onError = Some quiet_onError\<rparr>"
          quiet_onError
          "\<lparr>data = JNull, act_error = JError ''Error'' ''first'', act_isLoading = False\<rparr>"
          "JError ''Error'' ''second''" fresh_action]
  by (simp add: useAsyncAction_init_def fresh_action_def)

section \<open>The promise of run (C10)\<close>

text \<open>
  Claim C10 says that the promise \<^verbatim>\<open>run\<close> returns never rejects. It does when the
  \<open>onError\<close> callback throws: the call is made inside the \<^verbatim>\<open>catch\<close> block, so what it
  throws leaves \<^verbatim>\<open>run\<close>.
\<close>

theorem run_rejects_counterexample:
  "fst (run (Some \<lparr>onComplete = None, onError = Some throwing_onError\<rparr>) useAsyncAction_init
          (Rejected (JStr ''boom'')) fresh_action) = Rejected (JStr ''handler failed'')"
  by (simp add: action_defs throwing_onError_def)

text \<open>
  Claim C10, amended. When \<open>fn\<close> succeeds with \<open>result\<close> and \<open>onComplete\<close> (if given)
  returns, the promise of \<^verbatim>\<open>run\<close> fulfils with \<^verbatim>\<open>{ data: result, error: null }\<close>. When \<open>fn\<close>
  fails with \<open>e\<close> and \<open>onError\<close> (if given) returns, it fulfils with
  \<^verbatim>\<open>{ data: null, error: e }\<close>, where \<open>e\<close> is the thrown value itself: for an \<open>e\<close> that is not
  an \<^verbatim>\<open>Error\<close> instance the error kept in the state is a different object.
\<close>

theorem run_result_pair:
  "(onComplete_returns opts \<longrightarrow>
      fst (run opts rendered (Fulfilled result) w) = Fulfilled (result_pair result JNull))
   \<and> (onError_returns opts (act_error rendered) \<longrightarrow>
      fst (run opts rendered (Rejected e) w) = Fulfilled (result_pair JNull e))
   \<and> (\<not> instanceof_Error e \<longrightarrow>
      act_error (act_cells (snd (run opts rendered (Rejected e) w))) \<noteq> e)"
proof (intro conjI impI)
  assume "onComplete_returns opts"
  then show "fst (run opts rendered (Fulfilled result) w) = Fulfilled (result_pair result JNull)"
    by (cases opts)
       (auto simp: onComplete_returns_def run_def run_resume_def try_catch_def
                   call_onComplete_def
             split: option.splits completion.splits)
next
  assume "onError_returns opts (act_error rendered)"
  then show "fst (run opts rendered (Rejected e) w) = Fulfilled (result_pair JNull e)"
    by (cases opts)
       (auto simp: onError_returns_def run_def run_resume_def try_catch_def catch_block_def
                   call_onError_def
             split: option.splits completion.splits)
next
  assume n: "\<not> instanceof_Error e"
  have "act_error (act_cells (snd (run opts rendered (Rejected e) w))) =
          new_Error ''Unknown error occurred.''"
    using act_error_catch_block[of opts "act_error rendered" e "run_begin w"] n
    by (simp add: run_def run_resume_def try_catch_def act_setIsLoading_def case_prod_unfold)
  with n show "act_error (act_cells (snd (run opts rendered (Rejected e) w))) \<noteq> e"
    by (auto simp: new_Error_def)
qed

theorem run_result_pair_witness:
  "onComplete_returns None \<and> onError_returns (Some \<lparr>onComplete = None, onError = Some quiet_onError\<rparr>) JNull
   \<and> fst (run None useAsyncAction_init (Fulfilled (JNum 7)) fresh_action)
       = Fulfilled (JObject [(''data'', JNum 7), (''error'', JNull)])
   \<and> fst (run (Some \<lparr>onComplete = None, onError = Some quiet_onError\<rparr>) useAsyncAction_init
            (Rejected (JStr ''boom'')) fresh_action)
       = Fulfilled (JObject [(''data'', JNull), (''error'', JStr ''boom'')])"
  using run_result_pair[of None useAsyncAction_init "JNum 7" fresh_action]
        run_result_pair[of "Some \<lparr>onComplete = None, onError = Some quiet_onError\<rparr>"
          useAsyncAction_init _ fresh_action "JStr ''boom''"]
  by (simp add: onComplete_returns_def onError_returns_def quiet_onError_def result_pair_def
                useAsyncAction_init_def)

end
